theory Spec2Isabelle
  imports Main "HOL-Library.Mapping" "HOL-Library.AList_Mapping"
begin

section \<open>The interactive translator client (translate.py)\<close>

text \<open>
  The script is one function, \<open>main\<close>, that talks to three parties: the console
  (\<open>input\<close>, \<open>print\<close>), the process environment (\<open>os.getenv\<close>) and the
  translator client of the SDK. The model makes each of them explicit. Console input is
  the list of lines still to be read; everything the program does that can be observed
  from outside (lines printed, prompts written, remote calls with their outcome) is
  appended to a trace. Exceptions are values.
\<close>

subsection \<open>Exceptions\<close>

text \<open>
  \<open>EOFError\<close> is what \<open>input\<close> raises at the end of the input; \<open>Exn msg\<close> is any other
  exception, \<open>msg\<close> being what \<open>str(ex)\<close> gives.
\<close>

datatype exn = EOFError | Exn string

fun str_exn :: "exn \<Rightarrow> string" where
  "str_exn EOFError = ''EOF when reading a line''"
| "str_exn (Exn msg) = msg"

subsection \<open>Data of the translator SDK\<close>

text \<open>
  Modelled from the spec: the classes of \<open>azure.ai.translation.text\<close> are not part of
  the repository. The response of \<open>get_supported_languages\<close> carries a dictionary
  \<open>translation\<close> from language code to a description; an item of the response of
  \<open>translate\<close> carries the detected source language and one translated text per
  requested target language. The fields \<open>text\<close> and \<open>translations\<close> of the SDK are
  \<open>translated_text\<close> and \<open>item_translations\<close> here.
\<close>

type_synonym catalog = "(string, string) mapping"

record DetectedLanguage =
  language :: string

record TranslationText =
  to :: string
  translated_text :: string

record TranslatedTextItem =
  detected_language :: DetectedLanguage
  item_translations :: "TranslationText list"

subsection \<open>The world outside the script\<close>

text \<open>
  \<open>translate\<close> receives the number of translate calls answered before, so that the
  service may answer the same request differently over time.
\<close>

record env =
  TRANSLATOR_REGION :: "string option"
  TRANSLATOR_KEY :: "string option"
  new_client :: "string option \<Rightarrow> string option \<Rightarrow> exn option"
  get_supported_languages :: "string \<Rightarrow> exn + catalog"
  translate :: "nat \<Rightarrow> string list \<Rightarrow> string list \<Rightarrow> exn + TranslatedTextItem list"

datatype event =
    Print string
  | Prompt string
  | New_client "string option" "string option" "exn option"
  | Get_supported_languages string "exn + catalog"
  | Translate "string list" "string list" "exn + TranslatedTextItem list"

text \<open>
  The state: the console and the service (\<open>stdin\<close>, \<open>trace\<close>, \<open>calls\<close>) and the local
  variables of \<open>main\<close> that the loops assign.
\<close>

record state =
  stdin :: "string list"
  trace :: "event list"
  calls :: nat
  targetLanguage :: string
  supportedLanguage :: bool
  inputText :: string

subsection \<open>Strings\<close>

text \<open>
  \<open>str.lower\<close> on the ASCII letters; every other character is left as it is.
\<close>

definition lower_char :: "char \<Rightarrow> char" where
  "lower_char c =
     (case map_of (zip ''ABCDEFGHIJKLMNOPQRSTUVWXYZ'' ''abcdefghijklmnopqrstuvwxyz'') c of
        None \<Rightarrow> c
      | Some d \<Rightarrow> d)"

definition lower :: "string \<Rightarrow> string" where
  "lower s = map lower_char s"

text \<open>\<open>str(n)\<close> for a natural number: its decimal digits.\<close>

fun str_nat :: "nat \<Rightarrow> string" where
  "str_nat n =
     (if n < 10 then [''0123456789'' ! n]
      else str_nat (n div 10) @ [''0123456789'' ! (n mod 10)])"

declare str_nat.simps [simp del]

definition apostrophe :: string where
  "apostrophe = [CHR 0x27]"

definition languages_supported_line :: "nat \<Rightarrow> string" where
  "languages_supported_line n = str_nat n @ '' languages supported.''"

definition see_line :: string where
  "see_line = ''(See https://learn.microsoft.com/azure/ai-services/translator/language-support#translation)''"

definition enter_target_line :: string where
  "enter_target_line = ''Enter a target language code for translation (for example, 'en'):''"

definition not_supported_line :: "string \<Rightarrow> string" where
  "not_supported_line code = code @ '' is not a supported language.''"

definition enter_text_prompt :: string where
  "enter_text_prompt = ''Enter text to translate (or 'quit' to exit): ''"

definition translated_line :: "string \<Rightarrow> string \<Rightarrow> string \<Rightarrow> string \<Rightarrow> string" where
  "translated_line inputText' sourceLanguage to_code translated =
     apostrophe @ inputText' @ apostrophe @ '' was translated from '' @ sourceLanguage
       @ '' to '' @ to_code @ '' as '' @ apostrophe @ translated @ apostrophe @ ''.''"

subsection \<open>Console and client operations\<close>

definition print :: "string \<Rightarrow> state \<Rightarrow> state" where
  "print line s = s\<lparr>trace := trace s @ [Print line]\<rparr>"

text \<open>
  \<open>input(prompt)\<close> writes the prompt, if there is one, and reads a line; at the end of
  the input it raises \<open>EOFError\<close>.
\<close>

definition input :: "string option \<Rightarrow> state \<Rightarrow> (exn + string) \<times> state" where
  "input prompt s =
     (let s1 = (case prompt of None \<Rightarrow> s | Some p \<Rightarrow> s\<lparr>trace := trace s @ [Prompt p]\<rparr>)
      in case stdin s1 of
           [] \<Rightarrow> (Inl EOFError, s1)
         | line # rest \<Rightarrow> (Inr line, s1\<lparr>stdin := rest\<rparr>))"

definition client_translate ::
  "env \<Rightarrow> string list \<Rightarrow> string list \<Rightarrow> state \<Rightarrow> (exn + TranslatedTextItem list) \<times> state" where
  "client_translate e body to_language s =
     (let r = translate e (calls s) body to_language
      in (r, s\<lparr>trace := trace s @ [Translate body to_language r], calls := Suc (calls s)\<rparr>))"

subsection \<open>Step 3: the language selection loop\<close>

text \<open>The body of the loop, lines 59 to 66.\<close>

definition select_body :: "catalog \<Rightarrow> state \<Rightarrow> exn option \<times> state" where
  "select_body cat s =
     (case input None s of
        (Inl ex, s1) \<Rightarrow> (Some ex, s1)
      | (Inr line, s1) \<Rightarrow>
          (let s2 = s1\<lparr>targetLanguage := line\<rparr>
           in if targetLanguage s2 \<in> Mapping.keys cat
              then (None, s2\<lparr>supportedLanguage := True\<rparr>)
              else (None, print (not_supported_line (targetLanguage s2)) s2)))"

function select_loop :: "catalog \<Rightarrow> state \<Rightarrow> exn option \<times> state" where
  "select_loop cat s =
     (if supportedLanguage s = False then
        (case select_body cat s of
           (Some ex, s') \<Rightarrow> (Some ex, s')
         | (None, s') \<Rightarrow> select_loop cat s')
      else (None, s))"
  by pat_completeness auto
termination
  by (relation "measure (\<lambda>(cat, s). length (stdin s))")
    (auto simp: select_body_def input_def print_def Let_def split: list.splits if_splits)

declare select_loop.simps [simp del]

subsection \<open>Step 4: the translation loop\<close>

text \<open>The \<open>for\<close> loop of lines 100 to 102.\<close>

definition display :: "TranslatedTextItem \<Rightarrow> state \<Rightarrow> state" where
  "display translation s =
     (let sourceLanguage = detected_language translation
      in fold (\<lambda>t.
                 print (translated_line (inputText s) (language sourceLanguage)
                          (to t) (translated_text t)))
           (item_translations translation) s)"

text \<open>
  The body of the loop, lines 76 to 102. The test \<open>if translation:\<close> is taken as the
  test that there is a first item.
\<close>

definition translate_body :: "env \<Rightarrow> state \<Rightarrow> exn option \<times> state" where
  "translate_body e s =
     (case input (Some enter_text_prompt) s of
        (Inl ex, s1) \<Rightarrow> (Some ex, s1)
      | (Inr line, s1) \<Rightarrow>
          (let s2 = s1\<lparr>inputText := line\<rparr>
           in if inputText s2 \<noteq> ''quit'' then
                (case client_translate e [inputText s2] [targetLanguage s2] s2 of
                   (Inl ex, s3) \<Rightarrow> (Some ex, s3)
                 | (Inr translationResponse, s3) \<Rightarrow>
                     (case (case translationResponse of [] \<Rightarrow> None | t # _ \<Rightarrow> Some t) of
                        None \<Rightarrow> (None, s3)
                      | Some translation \<Rightarrow> (None, display translation s3)))
              else (None, s2)))"

function translation_loop :: "env \<Rightarrow> state \<Rightarrow> exn option \<times> state" where
  "translation_loop e s =
     (if lower (inputText s) \<noteq> ''quit'' then
        (case translate_body e s of
           (Some ex, s') \<Rightarrow> (Some ex, s')
         | (None, s') \<Rightarrow> translation_loop e s')
      else (None, s))"
  by pat_completeness auto
termination
proof -
  have printed: "stdin (fold (\<lambda>t. print (f t)) ts u) = stdin u"
    for f :: "TranslationText \<Rightarrow> string" and ts u
    by (induction ts arbitrary: u) (simp_all add: print_def)
  have body: "length (stdin s') < length (stdin s)"
    if "translate_body e s = (None, s')" for e s s'
    using that
    by (auto simp: translate_body_def input_def client_translate_def display_def Let_def
          printed split: list.splits if_splits sum.splits)
  show ?thesis
    by (relation "measure (\<lambda>(e, s). length (stdin s))") (auto dest: body [OF sym])
qed

declare translation_loop.simps [simp del]

subsection \<open>The whole of \<open>main\<close>\<close>

text \<open>Steps 1 to 3 up to the banner, lines 28 to 51.\<close>

definition startup :: "env \<Rightarrow> state \<Rightarrow> (exn + catalog) \<times> state" where
  "startup e s =
     (let translatorRegion = TRANSLATOR_REGION e;
          translatorKey = TRANSLATOR_KEY e;
          c = new_client e translatorKey translatorRegion;
          s0 = s\<lparr>trace := trace s @ [New_client translatorKey translatorRegion c]\<rparr>
      in case c of
           Some ex \<Rightarrow> (Inl ex, s0)
         | None \<Rightarrow>
             (let r = get_supported_languages e ''translation'';
                  s1 = s0\<lparr>trace := trace s0 @ [Get_supported_languages ''translation'' r]\<rparr>
              in case r of
                   Inl ex \<Rightarrow> (Inl ex, s1)
                 | Inr cat \<Rightarrow>
                     (Inr cat,
                      print enter_target_line
                        (print see_line
                           (print (languages_supported_line (Mapping.size cat)) s1)))))"

text \<open>The body of the \<open>try\<close>, lines 26 to 102.\<close>

definition main_try :: "env \<Rightarrow> state \<Rightarrow> exn option \<times> state" where
  "main_try e s =
     (case startup e s of
        (Inl ex, s1) \<Rightarrow> (Some ex, s1)
      | (Inr cat, s1) \<Rightarrow>
          (case select_loop cat (s1\<lparr>targetLanguage := ''xx'', supportedLanguage := False\<rparr>) of
             (Some ex, s2) \<Rightarrow> (Some ex, s2)
           | (None, s2) \<Rightarrow> translation_loop e (s2\<lparr>inputText := ''''\<rparr>)))"

definition initial :: "string list \<Rightarrow> state" where
  "initial lines =
     \<lparr>stdin = lines, trace = [], calls = 0, targetLanguage = '''',
      supportedLanguage = False, inputText = ''''\<rparr>"

text \<open>
  \<open>main\<close> with its \<open>except Exception\<close> clause: what a session on the given console
  input leaves as its trace.
\<close>

definition main :: "env \<Rightarrow> string list \<Rightarrow> event list" where
  "main e lines =
     (case main_try e (initial lines) of
        (Some ex, s) \<Rightarrow> trace (print (str_exn ex) s)
      | (None, s) \<Rightarrow> trace s)"

subsection \<open>Reading a trace\<close>

text \<open>The exception a remote call ended with, if it ended with one.\<close>

fun remote_failure :: "event \<Rightarrow> exn option" where
  "remote_failure (New_client key region (Some ex)) = Some ex"
| "remote_failure (Get_supported_languages scope (Inl ex)) = Some ex"
| "remote_failure (Translate body to_language (Inl ex)) = Some ex"
| "remote_failure ev = None"

definition quiet :: "event list \<Rightarrow> bool" where
  "quiet evs = list_all (\<lambda>ev. remote_failure ev = None) evs"

text \<open>
  What a piece of the program that ends with \<open>r\<close> may have added to the trace: no failed
  remote call at all, or one, as the last event, whose exception is the one it ends with.
\<close>

definition propagated :: "exn option \<Rightarrow> event list \<Rightarrow> bool" where
  "propagated r evs =
     (case r of
        None \<Rightarrow> quiet evs
      | Some ex \<Rightarrow>
          quiet evs \<or> (evs \<noteq> [] \<and> quiet (butlast evs) \<and> remote_failure (last evs) = Some ex))"

definition banner :: "catalog \<Rightarrow> event list" where
  "banner cat =
     [Print (languages_supported_line (Mapping.size cat)), Print see_line,
      Print enter_target_line]"

subsection \<open>Sample worlds\<close>

definition sample_catalog :: catalog where
  "sample_catalog = Mapping.of_alist [(''en'', ''English''), (''fr'', ''French'')]"

definition sample_item :: "string \<Rightarrow> TranslatedTextItem" where
  "sample_item code =
     \<lparr>detected_language = \<lparr>language = ''en''\<rparr>,
      item_translations = [\<lparr>to = code, translated_text = ''Bonjour''\<rparr>]\<rparr>"

text \<open>A world with the configuration in place and the given translate service.\<close>

definition sample_env ::
  "(nat \<Rightarrow> string list \<Rightarrow> string list \<Rightarrow> exn + TranslatedTextItem list) \<Rightarrow> env" where
  "sample_env service =
     \<lparr>TRANSLATOR_REGION = Some ''eastus'', TRANSLATOR_KEY = Some ''0123'',
      new_client = (\<lambda>key region. None),
      get_supported_languages = (\<lambda>scope. Inr sample_catalog),
      translate = service\<rparr>"

definition answering :: "nat \<Rightarrow> string list \<Rightarrow> string list \<Rightarrow> exn + TranslatedTextItem list" where
  "answering n body to_language = Inr (map sample_item to_language)"

definition silent :: "nat \<Rightarrow> string list \<Rightarrow> string list \<Rightarrow> exn + TranslatedTextItem list" where
  "silent n body to_language = Inr []"

definition failing :: "nat \<Rightarrow> string list \<Rightarrow> string list \<Rightarrow> exn + TranslatedTextItem list" where
  "failing n body to_language = Inl (Exn ''quota exceeded'')"

text \<open>The state in which the translation loop starts, the target language chosen.\<close>

definition started :: "string list \<Rightarrow> string \<Rightarrow> state" where
  "started lines code =
     \<lparr>stdin = lines, trace = [], calls = 0, targetLanguage = code,
      supportedLanguage = True, inputText = ''''\<rparr>"

section \<open>Lemmas about the two loops\<close>

lemma select_body_reject:
  "stdin s = c # rest \<Longrightarrow> c \<notin> Mapping.keys cat \<Longrightarrow>
   select_body cat s =
     (None, s\<lparr>stdin := rest, targetLanguage := c,
               trace := trace s @ [Print (not_supported_line c)]\<rparr>)"
  by (simp add: select_body_def input_def print_def)

lemma select_body_accept:
  "stdin s = c # rest \<Longrightarrow> c \<in> Mapping.keys cat \<Longrightarrow>
   select_body cat s =
     (None, s\<lparr>stdin := rest, targetLanguage := c, supportedLanguage := True\<rparr>)"
  by (simp add: select_body_def input_def print_def)

lemma select_body_eof:
  "stdin s = [] \<Longrightarrow> select_body cat s = (Some EOFError, s)"
  by (simp add: select_body_def input_def)

lemma select_loop_selected:
  "select_loop cat s = (None, s') \<Longrightarrow> supportedLanguage s = False \<Longrightarrow>
   targetLanguage s' \<in> Mapping.keys cat \<and> supportedLanguage s' \<and>
   (\<exists>bad. stdin s = bad @ targetLanguage s' # stdin s' \<and>
      (\<forall>b \<in> set bad. b \<notin> Mapping.keys cat) \<and>
      trace s' = trace s @ map (\<lambda>b. Print (not_supported_line b)) bad) \<and>
   calls s' = calls s \<and> inputText s' = inputText s"
proof (induction cat s rule: select_loop.induct)
  case (1 cat s)
  show ?case
  proof (cases "stdin s")
    case Nil
    with "1.prems" show ?thesis
      by (simp add: select_loop.simps [of cat s] select_body_eof)
  next
    case (Cons c rest)
    show ?thesis
    proof (cases "c \<in> Mapping.keys cat")
      case True
      let ?s1 = "s\<lparr>stdin := rest, targetLanguage := c, supportedLanguage := True\<rparr>"
      from True Cons "1.prems" have "s' = ?s1"
        by (simp add: select_loop.simps [of cat s] select_body_accept select_loop.simps [of cat ?s1])
      with True Cons show ?thesis
        by (auto intro: exI [of _ "[]"])
    next
      case False
      let ?s1 = "s\<lparr>stdin := rest, targetLanguage := c,
                    trace := trace s @ [Print (not_supported_line c)]\<rparr>"
      have body: "select_body cat s = (None, ?s1)"
        using Cons False by (rule select_body_reject)
      with "1.prems" have run: "select_loop cat ?s1 = (None, s')"
        by (simp add: select_loop.simps [of cat s])
      have flag: "supportedLanguage ?s1 = False"
        using "1.prems" by simp
      from "1.IH" [OF "1.prems"(2) body [symmetric] refl run flag]
      obtain bad where ih:
        "targetLanguage s' \<in> Mapping.keys cat" "supportedLanguage s'"
        "stdin ?s1 = bad @ targetLanguage s' # stdin s'"
        "\<forall>b \<in> set bad. b \<notin> Mapping.keys cat"
        "trace s' = trace ?s1 @ map (\<lambda>b. Print (not_supported_line b)) bad"
        "calls s' = calls ?s1" "inputText s' = inputText ?s1"
        by blast
      have "stdin s = (c # bad) @ targetLanguage s' # stdin s'"
        using Cons ih(3) by simp
      moreover have "\<forall>b \<in> set (c # bad). b \<notin> Mapping.keys cat"
        using False ih(4) by simp
      moreover have "trace s' = trace s @ map (\<lambda>b. Print (not_supported_line b)) (c # bad)"
        using ih(5) by simp
      ultimately have "\<exists>bad. stdin s = bad @ targetLanguage s' # stdin s' \<and>
          (\<forall>b \<in> set bad. b \<notin> Mapping.keys cat) \<and>
          trace s' = trace s @ map (\<lambda>b. Print (not_supported_line b)) bad"
        by blast
      with ih show ?thesis by simp
    qed
  qed
qed

lemma fold_print:
  "fold (\<lambda>t. print (f t)) ts u = u\<lparr>trace := trace u @ map (\<lambda>t. Print (f t)) ts\<rparr>"
  by (induction ts arbitrary: u) (simp_all add: print_def)

lemma display_trace:
  "display item s =
     s\<lparr>trace := trace s @
        map (\<lambda>t. Print (translated_line (inputText s) (language (detected_language item))
                          (to t) (translated_text t)))
          (item_translations item)\<rparr>"
  by (simp add: display_def fold_print)

lemma translate_body_eof:
  "stdin s = [] \<Longrightarrow>
   translate_body e s = (Some EOFError, s\<lparr>trace := trace s @ [Prompt enter_text_prompt]\<rparr>)"
  by (simp add: translate_body_def input_def)

lemma translate_body_quit:
  "stdin s = ''quit'' # rest \<Longrightarrow>
   translate_body e s =
     (None, s\<lparr>stdin := rest, inputText := ''quit'',
               trace := trace s @ [Prompt enter_text_prompt]\<rparr>)"
  by (simp add: translate_body_def input_def)

lemma translate_body_raise:
  "stdin s = x # rest \<Longrightarrow> x \<noteq> ''quit'' \<Longrightarrow>
   translate e (calls s) [x] [targetLanguage s] = Inl ex \<Longrightarrow>
   translate_body e s =
     (Some ex, s\<lparr>stdin := rest, inputText := x, calls := Suc (calls s),
                  trace := trace s @ [Prompt enter_text_prompt,
                                      Translate [x] [targetLanguage s] (Inl ex)]\<rparr>)"
  by (simp add: translate_body_def input_def client_translate_def Let_def)

lemma translate_body_empty:
  "stdin s = x # rest \<Longrightarrow> x \<noteq> ''quit'' \<Longrightarrow>
   translate e (calls s) [x] [targetLanguage s] = Inr [] \<Longrightarrow>
   translate_body e s =
     (None, s\<lparr>stdin := rest, inputText := x, calls := Suc (calls s),
               trace := trace s @ [Prompt enter_text_prompt,
                                   Translate [x] [targetLanguage s] (Inr [])]\<rparr>)"
  by (simp add: translate_body_def input_def client_translate_def Let_def)

lemma translate_body_item:
  "stdin s = x # rest \<Longrightarrow> x \<noteq> ''quit'' \<Longrightarrow>
   translate e (calls s) [x] [targetLanguage s] = Inr (item # items) \<Longrightarrow>
   translate_body e s =
     (None, s\<lparr>stdin := rest, inputText := x, calls := Suc (calls s),
               trace := trace s @ [Prompt enter_text_prompt,
                                   Translate [x] [targetLanguage s] (Inr (item # items))] @
                 map (\<lambda>t. Print (translated_line x (language (detected_language item))
                                   (to t) (translated_text t)))
                   (item_translations item)\<rparr>)"
  by (simp add: translate_body_def input_def client_translate_def display_trace Let_def)

lemma quiet_simps [simp]:
  "quiet []"
  "quiet (ev # evs) \<longleftrightarrow> remote_failure ev = None \<and> quiet evs"
  "quiet (evs @ evs') \<longleftrightarrow> quiet evs \<and> quiet evs'"
  by (simp_all add: quiet_def)

lemma quiet_map_Print [simp]: "quiet (map (\<lambda>t. Print (f t)) ts)"
  by (induction ts) simp_all

lemma propagated_append:
  "quiet evs \<Longrightarrow> propagated r evs' \<Longrightarrow> propagated r (evs @ evs')"
  by (auto simp: propagated_def butlast_append split: option.splits)

lemma not_supported_line_banner: "Print (not_supported_line b) \<notin> set (banner cat)"
proof -
  have "take 2 (rev (not_supported_line b)) = ''.e''"
    by (simp add: not_supported_line_def)
  moreover have "take 2 (rev (languages_supported_line n)) = ''.d''" for n
    by (simp add: languages_supported_line_def)
  moreover have "take 2 (rev see_line) = '')n''"
    by (simp add: see_line_def)
  moreover have "take 2 (rev enter_target_line) = '':)''"
    by (simp add: enter_target_line_def)
  ultimately show ?thesis
    by (auto simp: banner_def)
qed

lemma translated_line_banner: "Print (translated_line x src t txt) \<notin> set (banner cat)"
proof -
  have "take 2 (rev (translated_line x src t txt)) = CHR ''.'' # apostrophe"
    by (simp add: translated_line_def apostrophe_def)
  moreover have "take 2 (rev (languages_supported_line n)) = ''.d''" for n
    by (simp add: languages_supported_line_def)
  moreover have "take 2 (rev see_line) = '')n''"
    by (simp add: see_line_def)
  moreover have "take 2 (rev enter_target_line) = '':)''"
    by (simp add: enter_target_line_def)
  ultimately show ?thesis
    by (auto simp: banner_def apostrophe_def)
qed

lemma translate_body_inv:
  assumes "translate_body e s = (r, s')"
  shows "targetLanguage s' = targetLanguage s \<and>
         (\<exists>evs. trace s' = trace s @ evs \<and> propagated r evs \<and>
            (\<forall>body tl res. Translate body tl res \<in> set evs \<longrightarrow> tl = [targetLanguage s]) \<and>
            (\<forall>ev \<in> set evs. ev \<notin> set (banner cat)))"
proof (cases "stdin s")
  case Nil
  from assms translate_body_eof [OF Nil, of e]
  have "r = Some EOFError" "s' = s\<lparr>trace := trace s @ [Prompt enter_text_prompt]\<rparr>"
    by simp_all
  then show ?thesis
    by (simp add: propagated_def banner_def)
next
  case (Cons x rest)
  show ?thesis
  proof (cases "x = ''quit''")
    case True
    from assms translate_body_quit [of s rest e] Cons True
    have "r = None" "s' = s\<lparr>stdin := rest, inputText := ''quit'',
               trace := trace s @ [Prompt enter_text_prompt]\<rparr>"
      by simp_all
    then show ?thesis
      by (simp add: propagated_def banner_def)
  next
    case False
    show ?thesis
    proof (cases "translate e (calls s) [x] [targetLanguage s]")
      case (Inl ex)
      from assms translate_body_raise [OF Cons False Inl]
      have "r = Some ex"
        "s' = s\<lparr>stdin := rest, inputText := x, calls := Suc (calls s),
                  trace := trace s @ [Prompt enter_text_prompt,
                                      Translate [x] [targetLanguage s] (Inl ex)]\<rparr>"
        by simp_all
      then show ?thesis
        by (simp add: propagated_def banner_def)
    next
      case (Inr resp)
      show ?thesis
      proof (cases resp)
        case Nil
        from assms translate_body_empty [OF Cons False Inr [unfolded Nil]]
        have "r = None"
          "s' = s\<lparr>stdin := rest, inputText := x, calls := Suc (calls s),
               trace := trace s @ [Prompt enter_text_prompt,
                                   Translate [x] [targetLanguage s] (Inr [])]\<rparr>"
          by simp_all
        then show ?thesis
          by (simp add: propagated_def banner_def)
      next
        case (Cons item items)
        let ?shown = "map (\<lambda>t. Print (translated_line x (language (detected_language item))
                                   (to t) (translated_text t))) (item_translations item)"
        from assms translate_body_item [OF \<open>stdin s = x # rest\<close> False Inr [unfolded Cons]]
        have r: "r = None" and
          s': "s' = s\<lparr>stdin := rest, inputText := x, calls := Suc (calls s),
               trace := trace s @ [Prompt enter_text_prompt,
                                   Translate [x] [targetLanguage s] (Inr (item # items))] @
                 ?shown\<rparr>"
          by simp_all
        have "\<forall>ev \<in> set ?shown. ev \<notin> set (banner cat)"
          by (auto simp: translated_line_banner)
        moreover have "\<forall>body tl res. Translate body tl res \<notin> set ?shown"
          by auto
        ultimately show ?thesis
          unfolding r s' by (auto simp: propagated_def banner_def)
      qed
    qed
  qed
qed

section \<open>The claims\<close>

text \<open>
  C3: for every code \<open>c\<close> that is a key of the fetched catalog, the language selection
  loop given the input \<open>c\<close> returns \<open>c\<close> as the target language and prints no rejection
  notice: the loop ends at once, without an exception, the line consumed, the trace as it
  was.
\<close>

theorem C3_valid_code_selected:
  assumes "c \<in> Mapping.keys cat" and "supportedLanguage s = False" and "stdin s = c # rest"
  shows "select_loop cat s =
           (None, s\<lparr>stdin := rest, targetLanguage := c, supportedLanguage := True\<rparr>)"
proof -
  let ?s1 = "s\<lparr>stdin := rest, targetLanguage := c, supportedLanguage := True\<rparr>"
  have "select_body cat s = (None, ?s1)"
    using assms(3) assms(1) by (rule select_body_accept)
  moreover have "select_loop cat ?s1 = (None, ?s1)"
    by (simp add: select_loop.simps [of cat ?s1])
  ultimately show ?thesis
    using assms(2) by (simp add: select_loop.simps [of cat s])
qed

theorem C3_valid_code_selected_witness:
  "select_loop sample_catalog
     \<lparr>stdin = [''fr'', ''Hello''], trace = [], calls = 0, targetLanguage = ''xx'',
      supportedLanguage = False, inputText = ''''\<rparr> =
   (None, \<lparr>stdin = [''Hello''], trace = [], calls = 0, targetLanguage = ''fr'',
           supportedLanguage = True, inputText = ''''\<rparr>)"
  using C3_valid_code_selected [of "''fr''" sample_catalog
      "\<lparr>stdin = [''fr'', ''Hello''], trace = [], calls = 0, targetLanguage = ''xx'',
        supportedLanguage = False, inputText = ''''\<rparr>" "[''Hello'']"]
  by (simp add: sample_catalog_def)

text \<open>
  C8: if the very first input at the text prompt is \<open>quit\<close>, the translation loop ends
  normally; the prompt is all it has added to the trace, so it has issued no translate
  call and printed no result line.
\<close>

theorem C8_quit_first:
  "translation_loop e (s\<lparr>inputText := '''', stdin := ''quit'' # rest\<rparr>) =
     (None, s\<lparr>inputText := ''quit'', stdin := rest,
               trace := trace s @ [Prompt enter_text_prompt]\<rparr>)"
proof -
  let ?s0 = "s\<lparr>inputText := '''', stdin := ''quit'' # rest\<rparr>"
  let ?s1 = "s\<lparr>inputText := ''quit'', stdin := rest,
               trace := trace s @ [Prompt enter_text_prompt]\<rparr>"
  have "translate_body e ?s0 = (None, ?s1)"
    using translate_body_quit [of ?s0 rest e] by simp
  moreover have "lower (inputText ?s0) \<noteq> ''quit''"
    by (simp add: lower_def)
  moreover have "lower (inputText ?s1) = ''quit''"
    by (simp add: lower_def lower_char_def)
  ultimately show ?thesis
    by (simp add: translation_loop.simps [of e ?s0] translation_loop.simps [of e ?s1])
qed

text \<open>
  C7: when the translate call answers with at least one item, one line is printed for each
  translation of the first item, of the form
  \<open>'<inputText>' was translated from <detectedSourceCode> to <targetCode> as '<translatedText>'.\<close>;
  for the input \<open>Hello\<close>, detected source \<open>en\<close>, target \<open>fr\<close> and translated text
  \<open>Bonjour\<close> that line is \<open>'Hello' was translated from en to fr as 'Bonjour'.\<close>
\<close>

theorem C7_result_line:
  assumes "stdin s = x # rest" and "x \<noteq> ''quit''"
    and "translate e (calls s) [x] [targetLanguage s] = Inr (item # items)"
  shows "translate_body e s =
     (None, s\<lparr>stdin := rest, inputText := x, calls := Suc (calls s),
               trace := trace s @ [Prompt enter_text_prompt,
                                   Translate [x] [targetLanguage s] (Inr (item # items))] @
                 map (\<lambda>t. Print ([CHR 0x27] @ x @ [CHR 0x27] @ '' was translated from '' @
                                   language (detected_language item) @ '' to '' @ to t @
                                   '' as '' @ [CHR 0x27] @ translated_text t @ [CHR 0x27] @ ''.''))
                   (item_translations item)\<rparr>) \<and>
    translated_line ''Hello'' ''en'' ''fr'' ''Bonjour'' =
      CHR 0x27 # ''Hello' was translated from en to fr as 'Bonjour'.''"
  using translate_body_item [OF assms]
  by (simp add: translated_line_def apostrophe_def)

theorem C7_result_line_witness:
  "translate_body (sample_env answering) (started [''Hello'', ''quit''] ''fr'') =
     (None,
      \<lparr>stdin = [''quit''],
       trace = [Prompt enter_text_prompt,
                Translate [''Hello''] [''fr''] (Inr [sample_item ''fr'']),
                Print (CHR 0x27 # ''Hello' was translated from en to fr as 'Bonjour'.'')],
       calls = 1, targetLanguage = ''fr'', supportedLanguage = True, inputText = ''Hello''\<rparr>)"
  using C7_result_line [of "started [''Hello'', ''quit''] ''fr''" "''Hello''" "[''quit'']"
      "sample_env answering" "sample_item ''fr''" "[]"]
  by (simp add: started_def sample_env_def answering_def sample_item_def)

lemma sample_catalog_keys: "Mapping.keys sample_catalog = {''en'', ''fr''}"
  by (auto simp: sample_catalog_def)

lemma sample_catalog_size: "Mapping.size sample_catalog = 2"
  by (simp add: Mapping.size_def sample_catalog_keys)

lemma languages_supported_line_2: "languages_supported_line 2 = ''2 languages supported.''"
  by (simp add: languages_supported_line_def str_nat.simps)

lemma lower_QUIT: "lower ''QUIT'' = ''quit''"
  by (simp add: lower_def lower_char_def)

lemma lower_Hello: "lower ''Hello'' = ''hello''"
  by (simp add: lower_def lower_char_def)

lemma translation_loop_exit:
  "lower (inputText s) = ''quit'' \<Longrightarrow> translation_loop e s = (None, s)"
  by (simp add: translation_loop.simps [of e s])

lemma translation_loop_eof:
  "lower (inputText s) \<noteq> ''quit'' \<Longrightarrow> stdin s = [] \<Longrightarrow>
   translation_loop e s = (Some EOFError, s\<lparr>trace := trace s @ [Prompt enter_text_prompt]\<rparr>)"
  by (simp add: translation_loop.simps [of e s] translate_body_eof)

lemma translation_loop_quit:
  assumes "lower (inputText s) \<noteq> ''quit''" and "stdin s = ''quit'' # rest"
  shows "translation_loop e s =
     (None, s\<lparr>stdin := rest, inputText := ''quit'',
               trace := trace s @ [Prompt enter_text_prompt]\<rparr>)"
proof -
  have "lower ''quit'' = ''quit''"
    by (simp add: lower_def lower_char_def)
  then show ?thesis
    using assms
    by (simp add: translation_loop.simps [of e s] translate_body_quit translation_loop_exit)
qed

text \<open>One iteration on a line other than \<open>quit\<close>, whatever the service answers.\<close>

lemma translation_loop_step:
  assumes "stdin s = x # rest" and "lower (inputText s) \<noteq> ''quit''" and "x \<noteq> ''quit''"
  shows "translation_loop e s =
     (let r = translate e (calls s) [x] [targetLanguage s];
          s1 = s\<lparr>stdin := rest, inputText := x, calls := Suc (calls s),
                 trace := trace s @ [Prompt enter_text_prompt,
                                     Translate [x] [targetLanguage s] r]\<rparr>
      in case r of
           Inl ex \<Rightarrow> (Some ex, s1)
         | Inr [] \<Rightarrow> translation_loop e s1
         | Inr (item # items) \<Rightarrow>
             translation_loop e
               (s1\<lparr>trace := trace s1 @
                   map (\<lambda>t. Print (translated_line x (language (detected_language item))
                                     (to t) (translated_text t)))
                     (item_translations item)\<rparr>))"
proof (cases "translate e (calls s) [x] [targetLanguage s]")
  case (Inl ex)
  with translate_body_raise [OF assms(1) assms(3) Inl] assms(2) show ?thesis
    by (simp add: translation_loop.simps [of e s])
next
  case (Inr resp)
  show ?thesis
  proof (cases resp)
    case Nil
    with Inr translate_body_empty [OF assms(1) assms(3), of e] assms(2) show ?thesis
      by (simp add: translation_loop.simps [of e s])
  next
    case (Cons item items)
    with Inr translate_body_item [OF assms(1) assms(3), of e item items] assms(2) show ?thesis
      by (simp add: translation_loop.simps [of e s])
  qed
qed

text \<open>
  C10: an empty line at the text prompt is not the sentinel and is not skipped. The loop
  issues a translate call whose body is the one item \<open>''''\<close>, ends with the exception
  if the call raises one, and otherwise prints the lines of the first item, as for any
  other input, and goes on with the next iteration.
\<close>

theorem C10_empty_line_translated:
  assumes "stdin s = '''' # rest" and "lower (inputText s) \<noteq> ''quit''"
  shows "translation_loop e s =
     (let r = translate e (calls s) [''''] [targetLanguage s];
          s1 = s\<lparr>stdin := rest, inputText := '''', calls := Suc (calls s),
                 trace := trace s @ [Prompt enter_text_prompt,
                                     Translate [''''] [targetLanguage s] r]\<rparr>
      in case r of
           Inl ex \<Rightarrow> (Some ex, s1)
         | Inr [] \<Rightarrow> translation_loop e s1
         | Inr (item # items) \<Rightarrow>
             translation_loop e
               (s1\<lparr>trace := trace s1 @
                   map (\<lambda>t. Print (translated_line '''' (language (detected_language item))
                                     (to t) (translated_text t)))
                     (item_translations item)\<rparr>)) \<and>
    lower '''' \<noteq> ''quit''"
  using translation_loop_step [OF assms(1) assms(2), of e]
  by (simp add: lower_def)

theorem C10_empty_line_translated_witness:
  "translation_loop (sample_env answering) (started ['''', ''quit''] ''fr'') =
     (None,
      \<lparr>stdin = [],
       trace = [Prompt enter_text_prompt,
                Translate [''''] [''fr''] (Inr [sample_item ''fr'']),
                Print (translated_line '''' ''en'' ''fr'' ''Bonjour''),
                Prompt enter_text_prompt],
       calls = 1, targetLanguage = ''fr'', supportedLanguage = True, inputText = ''quit''\<rparr>)"
proof -
  have "lower (inputText (started ['''', ''quit''] ''fr'')) \<noteq> ''quit''"
    by (simp add: started_def lower_def)
  from C10_empty_line_translated [OF _ this, of "[''quit'']" "sample_env answering"]
  show ?thesis
    by (simp add: started_def sample_env_def answering_def sample_item_def lower_def
        translation_loop_quit)
qed

lemma select_loop_accept:
  assumes "stdin s = c # rest" and "c \<in> Mapping.keys cat" and "supportedLanguage s = False"
  shows "select_loop cat s =
           (None, s\<lparr>stdin := rest, targetLanguage := c, supportedLanguage := True\<rparr>)"
  using assms
  by (simp add: select_loop.simps [of cat s] select_body_accept
      select_loop.simps [of cat "s\<lparr>stdin := rest, targetLanguage := c, supportedLanguage := True\<rparr>"])

lemma select_loop_reject:
  assumes "stdin s = c # rest" and "c \<notin> Mapping.keys cat" and "supportedLanguage s = False"
  shows "select_loop cat s =
           select_loop cat (s\<lparr>stdin := rest, targetLanguage := c,
                               trace := trace s @ [Print (not_supported_line c)]\<rparr>)"
  using assms
  by (simp add: select_loop.simps [of cat s] select_body_reject)

lemma select_loop_eof:
  assumes "stdin s = []" and "supportedLanguage s = False"
  shows "select_loop cat s = (Some EOFError, s)"
  using assms
  by (simp add: select_loop.simps [of cat s] select_body_eof)

lemma lower_empty: "lower [] = []"
  by (simp add: lower_def)

lemma startup_ok:
  assumes "new_client e (TRANSLATOR_KEY e) (TRANSLATOR_REGION e) = None"
    and "get_supported_languages e ''translation'' = Inr cat"
  shows "startup e s =
     (Inr cat,
      s\<lparr>trace := trace s @
           [New_client (TRANSLATOR_KEY e) (TRANSLATOR_REGION e) None,
            Get_supported_languages ''translation'' (Inr cat)] @ banner cat\<rparr>)"
  using assms by (simp add: startup_def banner_def print_def Let_def)

lemma sample_startup:
  "startup (sample_env service) (initial lines) =
     (Inr sample_catalog,
      \<lparr>stdin = lines,
       trace = [New_client (Some ''0123'') (Some ''eastus'') None,
                Get_supported_languages ''translation'' (Inr sample_catalog),
                Print ''2 languages supported.'', Print see_line, Print enter_target_line],
       calls = 0, targetLanguage = '''', supportedLanguage = False, inputText = ''''\<rparr>)"
  using startup_ok [of "sample_env service" sample_catalog "initial lines"]
  by (simp add: sample_env_def initial_def banner_def sample_catalog_size
      languages_supported_line_2)

text \<open>
  C1: the claim is that an input equal to \<open>quit\<close> up to letter case ends the loop
  without a translate call. The loop test of line 74 compares \<open>inputText.lower()\<close> with
  \<open>quit\<close>, the test of line 79 compares \<open>inputText\<close> itself: on the input \<open>QUIT\<close> the
  program sends \<open>QUIT\<close> to the service, prints its translation and only then leaves the
  loop.
\<close>

theorem C1_uppercase_quit_is_translated:
  "main (sample_env answering) [''fr'', ''QUIT''] =
     [New_client (Some ''0123'') (Some ''eastus'') None,
      Get_supported_languages ''translation'' (Inr sample_catalog),
      Print ''2 languages supported.'', Print see_line, Print enter_target_line,
      Prompt enter_text_prompt,
      Translate [''QUIT''] [''fr''] (Inr [sample_item ''fr'']),
      Print (CHR 0x27 # ''QUIT' was translated from en to fr as 'Bonjour'.'')]"
proof -
  let ?e = "sample_env answering"
  let ?tr = "[New_client (Some ''0123'') (Some ''eastus'') None,
      Get_supported_languages ''translation'' (Inr sample_catalog),
      Print ''2 languages supported.'', Print see_line, Print enter_target_line]"
  let ?s2 = "\<lparr>stdin = [''QUIT''], trace = ?tr, calls = 0, targetLanguage = ''fr'',
      supportedLanguage = True, inputText = ''''\<rparr>"
  have selected: "select_loop sample_catalog
      \<lparr>stdin = [''fr'', ''QUIT''], trace = ?tr, calls = 0, targetLanguage = ''xx'',
       supportedLanguage = False, inputText = ''''\<rparr> =
     (None, \<lparr>stdin = [''QUIT''], trace = ?tr, calls = 0, targetLanguage = ''fr'',
      supportedLanguage = True, inputText = ''''\<rparr>)"
    by (simp add: select_loop_accept [of _ "''fr''" "[''QUIT'']"] sample_catalog_keys)
  have translated: "translation_loop ?e ?s2 =
     (None, \<lparr>stdin = [], trace = ?tr @ [Prompt enter_text_prompt,
          Translate [''QUIT''] [''fr''] (Inr [sample_item ''fr'']),
          Print (CHR 0x27 # ''QUIT' was translated from en to fr as 'Bonjour'.'')],
        calls = 1, targetLanguage = ''fr'', supportedLanguage = True, inputText = ''QUIT''\<rparr>)"
    by (simp add: translation_loop_step [of ?s2 "''QUIT''" "[]"] lower_empty lower_QUIT
        translation_loop_exit sample_env_def answering_def sample_item_def translated_line_def
        apostrophe_def)
  show ?thesis
    by (simp add: main_def main_try_def sample_startup selected translated)
qed

text \<open>
  C4: the claim is that after an empty response nothing is printed, nothing is raised and
  the loop goes on to the next prompt. On the input \<open>QUIT\<close>, which line 79 lets through
  to the service, an empty response is followed by the end of the loop: the line
  \<open>Hello\<close> that follows is never asked for.
\<close>

theorem C4_empty_response_after_uppercase_quit:
  "main (sample_env silent) [''fr'', ''QUIT'', ''Hello''] =
     [New_client (Some ''0123'') (Some ''eastus'') None,
      Get_supported_languages ''translation'' (Inr sample_catalog),
      Print ''2 languages supported.'', Print see_line, Print enter_target_line,
      Prompt enter_text_prompt,
      Translate [''QUIT''] [''fr''] (Inr [])]"
proof -
  let ?e = "sample_env silent"
  let ?tr = "[New_client (Some ''0123'') (Some ''eastus'') None,
      Get_supported_languages ''translation'' (Inr sample_catalog),
      Print ''2 languages supported.'', Print see_line, Print enter_target_line]"
  let ?s2 = "\<lparr>stdin = [''QUIT'', ''Hello''], trace = ?tr, calls = 0, targetLanguage = ''fr'',
      supportedLanguage = True, inputText = ''''\<rparr>"
  have selected: "select_loop sample_catalog
      \<lparr>stdin = [''fr'', ''QUIT'', ''Hello''], trace = ?tr, calls = 0, targetLanguage = ''xx'',
       supportedLanguage = False, inputText = ''''\<rparr> =
     (None, \<lparr>stdin = [''QUIT'', ''Hello''], trace = ?tr, calls = 0, targetLanguage = ''fr'',
      supportedLanguage = True, inputText = ''''\<rparr>)"
    by (simp add: select_loop_accept [of _ "''fr''" "[''QUIT'', ''Hello'']"] sample_catalog_keys)
  have translated: "translation_loop ?e ?s2 =
     (None, \<lparr>stdin = [''Hello''], trace = ?tr @ [Prompt enter_text_prompt,
          Translate [''QUIT''] [''fr''] (Inr [])],
        calls = 1, targetLanguage = ''fr'', supportedLanguage = True, inputText = ''QUIT''\<rparr>)"
    by (simp add: translation_loop_step [of ?s2 "''QUIT''" "[''Hello'']"] lower_empty lower_QUIT
        translation_loop_exit sample_env_def silent_def)
  show ?thesis
    by (simp add: main_def main_try_def sample_startup selected translated)
qed

lemma translate_body_vars:
  "translate_body e s = (r, s') \<Longrightarrow>
   targetLanguage s' = targetLanguage s \<and> supportedLanguage s' = supportedLanguage s"
  by (auto simp: translate_body_def input_def client_translate_def display_trace Let_def
      split: list.splits if_splits sum.splits)

lemma translation_loop_vars:
  "translation_loop e s = (r, s') \<Longrightarrow>
   targetLanguage s' = targetLanguage s \<and> supportedLanguage s' = supportedLanguage s"
proof (induction e s rule: translation_loop.induct)
  case (1 e s)
  show ?case
  proof (cases "lower (inputText s) \<noteq> ''quit''")
    case False
    with "1.prems" show ?thesis
      by (simp add: translation_loop.simps [of e s])
  next
    case True
    obtain rb sb where body: "translate_body e s = (rb, sb)"
      by (cases "translate_body e s")
    show ?thesis
    proof (cases rb)
      case (Some ex)
      with "1.prems" True body have "s' = sb"
        by (simp add: translation_loop.simps [of e s])
      with translate_body_vars [OF body] show ?thesis
        by simp
    next
      case None
      with "1.prems" True body have "translation_loop e sb = (r, s')"
        by (simp add: translation_loop.simps [of e s])
      from "1.IH" [OF True body [symmetric, unfolded None] refl this]
        translate_body_vars [OF body]
      show ?thesis
        by simp
    qed
  qed
qed

lemma translation_loop_inv:
  assumes "translation_loop e s = (r, s')"
  shows "\<exists>evs. trace s' = trace s @ evs \<and> propagated r evs \<and>
            (\<forall>body tl res. Translate body tl res \<in> set evs \<longrightarrow> tl = [targetLanguage s]) \<and>
            (\<forall>ev \<in> set evs. ev \<notin> set (banner cat))"
  using assms
proof (induction e s rule: translation_loop.induct)
  case (1 e s)
  show ?case
  proof (cases "lower (inputText s) \<noteq> ''quit''")
    case False
    with "1.prems" have "r = None" "s' = s"
      by (simp_all add: translation_loop.simps [of e s])
    then show ?thesis
      by (simp add: propagated_def)
  next
    case True
    obtain rb sb where body: "translate_body e s = (rb, sb)"
      by (cases "translate_body e s")
    from translate_body_inv [OF body, of cat] obtain evs1 where
      target: "targetLanguage sb = targetLanguage s" and
      evs1: "trace sb = trace s @ evs1" "propagated rb evs1"
        "\<forall>body tl res. Translate body tl res \<in> set evs1 \<longrightarrow> tl = [targetLanguage s]"
        "\<forall>ev \<in> set evs1. ev \<notin> set (banner cat)"
      by blast
    show ?thesis
    proof (cases rb)
      case (Some ex)
      with "1.prems" True body have "r = rb" "s' = sb"
        by (simp_all add: translation_loop.simps [of e s])
      with evs1 show ?thesis
        by blast
    next
      case None
      with "1.prems" True body have run: "translation_loop e sb = (r, s')"
        by (simp add: translation_loop.simps [of e s])
      from "1.IH" [OF True body [symmetric, unfolded None] refl run] target
      obtain evs2 where
        evs2: "trace s' = trace sb @ evs2" "propagated r evs2"
          "\<forall>body tl res. Translate body tl res \<in> set evs2 \<longrightarrow> tl = [targetLanguage s]"
          "\<forall>ev \<in> set evs2. ev \<notin> set (banner cat)"
        by auto
      from evs1(2) None have "quiet evs1"
        by (simp add: propagated_def)
      then have "propagated r (evs1 @ evs2)"
        using evs2(2) by (rule propagated_append)
      moreover have "trace s' = trace s @ (evs1 @ evs2)"
        using evs1(1) evs2(1) by simp
      moreover have "\<forall>body tl res. Translate body tl res \<in> set (evs1 @ evs2)
          \<longrightarrow> tl = [targetLanguage s]"
        using evs1(3) evs2(3) by (metis Un_iff set_append)
      moreover have "\<forall>ev \<in> set (evs1 @ evs2). ev \<notin> set (banner cat)"
        using evs1(4) evs2(4) by auto
      ultimately show ?thesis
        by blast
    qed
  qed
qed

lemma select_loop_trace:
  "select_loop cat s = (r, s') \<Longrightarrow>
   \<exists>bad. trace s' = trace s @ map (\<lambda>b. Print (not_supported_line b)) bad"
proof (induction cat s rule: select_loop.induct)
  case (1 cat s)
  show ?case
  proof (cases "supportedLanguage s = False")
    case False
    with "1.prems" have "s' = s"
      by (simp add: select_loop.simps [of cat s])
    then show ?thesis
      by simp
  next
    case True
    show ?thesis
    proof (cases "stdin s")
      case Nil
      with "1.prems" True have "s' = s"
        by (simp add: select_loop_eof)
      then show ?thesis
        by simp
    next
      case (Cons c rest)
      show ?thesis
      proof (cases "c \<in> Mapping.keys cat")
        case in_cat: True
        from "1.prems" select_loop_accept [OF Cons in_cat True]
        have "trace s' = trace s"
          by auto
        then show ?thesis
          by simp
      next
        case not_in_cat: False
        let ?s1 = "s\<lparr>stdin := rest, targetLanguage := c,
                      trace := trace s @ [Print (not_supported_line c)]\<rparr>"
        have body: "select_body cat s = (None, ?s1)"
          using Cons not_in_cat by (rule select_body_reject)
        from "1.prems" select_loop_reject [OF Cons not_in_cat True]
        have run: "select_loop cat ?s1 = (r, s')"
          by simp
        from "1.IH" [OF True body [symmetric] refl run]
        obtain bad where "trace s' = trace ?s1 @ map (\<lambda>b. Print (not_supported_line b)) bad"
          by blast
        then have "trace s' = trace s @ map (\<lambda>b. Print (not_supported_line b)) (c # bad)"
          by simp
        then show ?thesis
          by blast
      qed
    qed
  qed
qed

lemma select_loop_failed:
  "select_loop cat s = (Some ex, s') \<Longrightarrow> supportedLanguage s = False \<Longrightarrow>
   supportedLanguage s' = False"
proof (induction cat s rule: select_loop.induct)
  case (1 cat s)
  show ?case
  proof (cases "stdin s")
    case Nil
    with "1.prems" have "s' = s"
      by (simp add: select_loop_eof)
    with "1.prems" show ?thesis
      by simp
  next
    case (Cons c rest)
    show ?thesis
    proof (cases "c \<in> Mapping.keys cat")
      case True
      from "1.prems" select_loop_accept [OF Cons True "1.prems"(2)]
      show ?thesis
        by simp
    next
      case False
      let ?s1 = "s\<lparr>stdin := rest, targetLanguage := c,
                    trace := trace s @ [Print (not_supported_line c)]\<rparr>"
      have body: "select_body cat s = (None, ?s1)"
        using Cons False by (rule select_body_reject)
      from "1.prems" select_loop_reject [OF Cons False "1.prems"(2)]
      have run: "select_loop cat ?s1 = (Some ex, s')"
        by simp
      have flag: "supportedLanguage ?s1 = False"
        using "1.prems" by simp
      from "1.IH" [OF "1.prems"(2) body [symmetric] refl run flag]
      show ?thesis .
    qed
  qed
qed

lemma main_try_unfold:
  "main_try e s =
     (let key = TRANSLATOR_KEY e; region = TRANSLATOR_REGION e
      in case new_client e key region of
           Some ex \<Rightarrow> (Some ex, s\<lparr>trace := trace s @ [New_client key region (Some ex)]\<rparr>)
         | None \<Rightarrow>
             (case get_supported_languages e ''translation'' of
                Inl ex \<Rightarrow>
                  (Some ex,
                   s\<lparr>trace := trace s @
                        [New_client key region None,
                         Get_supported_languages ''translation'' (Inl ex)]\<rparr>)
              | Inr cat \<Rightarrow>
                  (case select_loop cat
                          (s\<lparr>trace := trace s @
                                [New_client key region None,
                                 Get_supported_languages ''translation'' (Inr cat)] @ banner cat,
                             targetLanguage := ''xx'', supportedLanguage := False\<rparr>) of
                     (Some ex, s2) \<Rightarrow> (Some ex, s2)
                   | (None, s2) \<Rightarrow> translation_loop e (s2\<lparr>inputText := ''''\<rparr>))))"
  by (simp add: main_try_def startup_def banner_def print_def Let_def
      split: option.splits sum.splits)

lemma main_try_propagated:
  assumes "main_try e s = (r, s')"
  shows "\<exists>evs. trace s' = trace s @ evs \<and> propagated r evs"
proof (cases "new_client e (TRANSLATOR_KEY e) (TRANSLATOR_REGION e)")
  case (Some ex)
  with assms have "r = Some ex"
    "trace s' = trace s @ [New_client (TRANSLATOR_KEY e) (TRANSLATOR_REGION e) (Some ex)]"
    by (auto simp: main_try_unfold)
  then show ?thesis
    by (simp add: propagated_def)
next
  case None
  show ?thesis
  proof (cases "get_supported_languages e ''translation''")
    case (Inl ex)
    with assms None have "r = Some ex"
      "trace s' = trace s @ [New_client (TRANSLATOR_KEY e) (TRANSLATOR_REGION e) None,
          Get_supported_languages ''translation'' (Inl ex)]"
      by (auto simp: main_try_unfold)
    then show ?thesis
      by (simp add: propagated_def)
  next
    case (Inr cat)
    let ?evs0 = "[New_client (TRANSLATOR_KEY e) (TRANSLATOR_REGION e) None,
        Get_supported_languages ''translation'' (Inr cat)] @ banner cat"
    let ?s1 = "s\<lparr>trace := trace s @ ?evs0, targetLanguage := ''xx'',
        supportedLanguage := False\<rparr>"
    obtain r2 s2 where sel: "select_loop cat ?s1 = (r2, s2)"
      by (cases "select_loop cat ?s1")
    from select_loop_trace [OF sel] obtain bad where
      bad: "trace s2 = trace s @ ?evs0 @ map (\<lambda>b. Print (not_supported_line b)) bad"
      by auto
    have quiet0: "quiet (?evs0 @ map (\<lambda>b. Print (not_supported_line b)) bad)"
      by (simp add: banner_def)
    show ?thesis
    proof (cases r2)
      case (Some ex)
      with assms None Inr sel have "r = r2" "s' = s2"
        by (simp_all add: main_try_unfold)
      moreover have "propagated r2 (?evs0 @ map (\<lambda>b. Print (not_supported_line b)) bad)"
        using quiet0 by (simp add: propagated_def del: quiet_simps split: option.splits)
      ultimately show ?thesis
        using bad by blast
    next
      case r2: None
      with assms None Inr sel
      have run: "translation_loop e (s2\<lparr>inputText := ''''\<rparr>) = (r, s')"
        by (simp add: main_try_unfold)
      from translation_loop_inv [OF run, of cat] obtain evs where
        evs: "trace s' = trace s2 @ evs" "propagated r evs"
        by auto
      have "propagated r ((?evs0 @ map (\<lambda>b. Print (not_supported_line b)) bad) @ evs)"
        using quiet0 evs(2) by (rule propagated_append)
      moreover have "trace s' = trace s @
          ((?evs0 @ map (\<lambda>b. Print (not_supported_line b)) bad) @ evs)"
        using bad evs(1) by simp
      ultimately show ?thesis
        by blast
    qed
  qed
qed

lemma quiet_nth: "quiet evs \<Longrightarrow> i < length evs \<Longrightarrow> remote_failure (evs ! i) = None"
  by (simp add: quiet_def list_all_length)

lemma main_unfold:
  "main_try e (initial lines) = (r, s) \<Longrightarrow>
   main e lines = (case r of None \<Rightarrow> trace s | Some ex \<Rightarrow> trace s @ [Print (str_exn ex)])"
  by (simp add: main_def print_def split: option.splits)



lemma select_loop_rejects:
  assumes "\<forall>b \<in> set bad. b \<notin> Mapping.keys cat" and "supportedLanguage s = False"
    and "stdin s = bad @ rest"
  shows "select_loop cat s =
     select_loop cat
       (s\<lparr>stdin := rest, targetLanguage := last (targetLanguage s # bad),
          trace := trace s @ map (\<lambda>b. Print (not_supported_line b)) bad\<rparr>)"
  using assms
proof (induction bad arbitrary: s)
  case Nil
  then have "rest = stdin s"
    by simp
  then show ?case
    by simp
next
  case (Cons b bad)
  let ?s1 = "s\<lparr>stdin := bad @ rest, targetLanguage := b,
                trace := trace s @ [Print (not_supported_line b)]\<rparr>"
  from Cons.prems have b: "b \<notin> Mapping.keys cat" and bad: "\<forall>b \<in> set bad. b \<notin> Mapping.keys cat"
    and input: "stdin s = b # (bad @ rest)"
    by simp_all
  have step: "select_loop cat s = select_loop cat ?s1"
    using input b Cons.prems(2) by (rule select_loop_reject)
  have flag: "supportedLanguage ?s1 = False"
    using Cons.prems(2) by simp
  have next_input: "stdin ?s1 = bad @ rest"
    by simp
  have "select_loop cat ?s1 = select_loop cat
       (?s1\<lparr>stdin := rest, targetLanguage := last (targetLanguage ?s1 # bad),
          trace := trace ?s1 @ map (\<lambda>b. Print (not_supported_line b)) bad\<rparr>)"
    using bad flag next_input by (rule Cons.IH)
  with step show ?case
    by simp
qed

text \<open>
  C2: for every input \<open>c\<close> that is not a key of the fetched catalog (the empty line is
  one, unless the catalog has it), the language selection loop prints exactly one
  rejection notice, which starts with \<open>c\<close>, and reads the next line. The iteration on
  \<open>c\<close> does not raise and leaves the flag unset. What the loop returns is fixed by the
  lines after \<open>c\<close>: if, after any number of further rejected lines, a key \<open>d\<close> comes,
  the loop returns \<open>d\<close>, with one notice for \<open>c\<close> and one for each of the others in the
  trace and nothing else; if the input ends first, the read that follows the last notice
  raises \<open>EOFError\<close>, with the same notices in the trace. In no case is \<open>c\<close> the
  selection.
\<close>

theorem C2_invalid_code_rejected:
  assumes "c \<notin> Mapping.keys cat" and "supportedLanguage s = False" and "stdin s = c # rest"
  shows "select_body cat s =
           (None, s\<lparr>stdin := rest, targetLanguage := c,
                     trace := trace s @ [Print (c @ '' is not a supported language.'')]\<rparr>) \<and>
         (\<forall>bad d rest'.
             rest = bad @ d # rest' \<and> (\<forall>b \<in> set bad. b \<notin> Mapping.keys cat) \<and>
             d \<in> Mapping.keys cat \<longrightarrow>
             select_loop cat s =
               (None, s\<lparr>stdin := rest', targetLanguage := d, supportedLanguage := True,
                         trace := trace s @
                           Print (c @ '' is not a supported language.'') #
                           map (\<lambda>b. Print (b @ '' is not a supported language.'')) bad\<rparr>)) \<and>
         ((\<forall>b \<in> set rest. b \<notin> Mapping.keys cat) \<longrightarrow>
             select_loop cat s =
               (Some EOFError,
                s\<lparr>stdin := [], targetLanguage := last (c # rest),
                  trace := trace s @
                    Print (c @ '' is not a supported language.'') #
                    map (\<lambda>b. Print (b @ '' is not a supported language.'')) rest\<rparr>)) \<and>
         (\<forall>s'. select_loop cat s = (None, s') \<longrightarrow> targetLanguage s' \<noteq> c)"
proof -
  have body: "select_body cat s =
      (None, s\<lparr>stdin := rest, targetLanguage := c,
                trace := trace s @ [Print (c @ '' is not a supported language.'')]\<rparr>)"
    using select_body_reject [OF assms(3) assms(1)] by (simp add: not_supported_line_def)
  have accepted: "select_loop cat s =
      (None, s\<lparr>stdin := rest', targetLanguage := d, supportedLanguage := True,
                trace := trace s @ Print (c @ '' is not a supported language.'') #
                  map (\<lambda>b. Print (b @ '' is not a supported language.'')) bad\<rparr>)"
    if "rest = bad @ d # rest'" and "\<forall>b \<in> set bad. b \<notin> Mapping.keys cat"
      and "d \<in> Mapping.keys cat" for bad d rest'
  proof -
    let ?s1 = "s\<lparr>stdin := d # rest', targetLanguage := last (targetLanguage s # c # bad),
        trace := trace s @ map (\<lambda>b. Print (not_supported_line b)) (c # bad)\<rparr>"
    have all_bad: "\<forall>b \<in> set (c # bad). b \<notin> Mapping.keys cat"
      using assms(1) that(2) by simp
    have input: "stdin s = (c # bad) @ d # rest'"
      using assms(3) that(1) by simp
    have "select_loop cat s = select_loop cat ?s1"
      using all_bad assms(2) input by (rule select_loop_rejects)
    moreover have "select_loop cat ?s1 = (None, ?s1\<lparr>stdin := rest', targetLanguage := d,
        supportedLanguage := True\<rparr>)"
    proof (rule select_loop_accept)
      show "stdin ?s1 = d # rest'"
        by simp
      show "d \<in> Mapping.keys cat"
        by (rule that(3))
      show "supportedLanguage ?s1 = False"
        using assms(2) by simp
    qed
    ultimately show ?thesis
      by (simp add: not_supported_line_def)
  qed
  have ended: "select_loop cat s =
      (Some EOFError,
       s\<lparr>stdin := [], targetLanguage := last (c # rest),
         trace := trace s @ Print (c @ '' is not a supported language.'') #
           map (\<lambda>b. Print (b @ '' is not a supported language.'')) rest\<rparr>)"
    if "\<forall>b \<in> set rest. b \<notin> Mapping.keys cat"
  proof -
    let ?s1 = "s\<lparr>stdin := [], targetLanguage := last (targetLanguage s # c # rest),
        trace := trace s @ map (\<lambda>b. Print (not_supported_line b)) (c # rest)\<rparr>"
    have all_bad: "\<forall>b \<in> set (c # rest). b \<notin> Mapping.keys cat"
      using assms(1) that by simp
    have input: "stdin s = (c # rest) @ []"
      using assms(3) by simp
    have "select_loop cat s = select_loop cat ?s1"
      using all_bad assms(2) input by (rule select_loop_rejects)
    moreover have "select_loop cat ?s1 = (Some EOFError, ?s1)"
    proof (rule select_loop_eof)
      show "stdin ?s1 = []"
        by simp
      show "supportedLanguage ?s1 = False"
        using assms(2) by simp
    qed
    ultimately show ?thesis
      by (simp add: not_supported_line_def)
  qed
  have other: "targetLanguage s' \<noteq> c" if "select_loop cat s = (None, s')" for s'
    using select_loop_selected [OF that assms(2)] assms(1) by auto
  show ?thesis
  proof (intro conjI allI impI)
    show "select_body cat s =
      (None, s\<lparr>stdin := rest, targetLanguage := c,
                trace := trace s @ [Print (c @ '' is not a supported language.'')]\<rparr>)"
      by (rule body)
  next
    fix bad d rest'
    assume "rest = bad @ d # rest' \<and> (\<forall>b \<in> set bad. b \<notin> Mapping.keys cat) \<and>
      d \<in> Mapping.keys cat"
    then show "select_loop cat s =
      (None, s\<lparr>stdin := rest', targetLanguage := d, supportedLanguage := True,
                trace := trace s @ Print (c @ '' is not a supported language.'') #
                  map (\<lambda>b. Print (b @ '' is not a supported language.'')) bad\<rparr>)"
      using accepted by blast
  next
    assume "\<forall>b \<in> set rest. b \<notin> Mapping.keys cat"
    then show "select_loop cat s =
      (Some EOFError,
       s\<lparr>stdin := [], targetLanguage := last (c # rest),
         trace := trace s @ Print (c @ '' is not a supported language.'') #
           map (\<lambda>b. Print (b @ '' is not a supported language.'')) rest\<rparr>)"
      by (rule ended)
  next
    fix s'
    assume "select_loop cat s = (None, s')"
    then show "targetLanguage s' \<noteq> c"
      by (rule other)
  qed
qed

theorem C2_invalid_code_rejected_witness:
  "select_loop sample_catalog
     \<lparr>stdin = ['''', ''xx'', ''fr'', ''Hello''], trace = [], calls = 0, targetLanguage = ''xx'',
      supportedLanguage = False, inputText = ''''\<rparr> =
     (None,
      \<lparr>stdin = [''Hello''],
       trace = [Print '' is not a supported language.'',
                Print ''xx is not a supported language.''],
       calls = 0, targetLanguage = ''fr'', supportedLanguage = True, inputText = ''''\<rparr>) \<and>
   select_loop sample_catalog
     \<lparr>stdin = [''de''], trace = [], calls = 0, targetLanguage = ''xx'',
      supportedLanguage = False, inputText = ''''\<rparr> =
     (Some EOFError,
      \<lparr>stdin = [], trace = [Print ''de is not a supported language.''],
       calls = 0, targetLanguage = ''de'', supportedLanguage = False, inputText = ''''\<rparr>)"
proof -
  let ?s = "\<lparr>stdin = ['''', ''xx'', ''fr'', ''Hello''], trace = [], calls = 0,
      targetLanguage = ''xx'', supportedLanguage = False, inputText = ''''\<rparr>"
  let ?t = "\<lparr>stdin = [''de''], trace = [], calls = 0,
      targetLanguage = ''xx'', supportedLanguage = False, inputText = ''''\<rparr>"
  have empty: "'''' \<notin> Mapping.keys sample_catalog"
    and xx: "\<forall>b \<in> set [''xx'']. b \<notin> Mapping.keys sample_catalog"
    and fr: "''fr'' \<in> Mapping.keys sample_catalog"
    and de: "''de'' \<notin> Mapping.keys sample_catalog"
    by (simp_all add: sample_catalog_keys)
  have s_flag: "supportedLanguage ?s = False" and s_input: "stdin ?s = '''' # [''xx'', ''fr'', ''Hello'']"
    and t_flag: "supportedLanguage ?t = False" and t_input: "stdin ?t = ''de'' # []"
    by simp_all
  have split: "[''xx'', ''fr'', ''Hello''] = [''xx''] @ ''fr'' # [''Hello'']"
    by simp
  from C2_invalid_code_rejected [OF empty s_flag s_input]
  have "\<forall>bad d rest'.
      [''xx'', ''fr'', ''Hello''] = bad @ d # rest' \<and>
      (\<forall>b \<in> set bad. b \<notin> Mapping.keys sample_catalog) \<and> d \<in> Mapping.keys sample_catalog \<longrightarrow>
      select_loop sample_catalog ?s =
        (None, ?s\<lparr>stdin := rest', targetLanguage := d, supportedLanguage := True,
           trace := trace ?s @ Print ('''' @ '' is not a supported language.'') #
             map (\<lambda>b. Print (b @ '' is not a supported language.'')) bad\<rparr>)"
    by (rule conjunct1 [OF conjunct2])
  then have "[''xx'', ''fr'', ''Hello''] = [''xx''] @ ''fr'' # [''Hello''] \<and>
      (\<forall>b \<in> set [''xx'']. b \<notin> Mapping.keys sample_catalog) \<and> ''fr'' \<in> Mapping.keys sample_catalog \<longrightarrow>
      select_loop sample_catalog ?s =
        (None, ?s\<lparr>stdin := [''Hello''], targetLanguage := ''fr'', supportedLanguage := True,
           trace := trace ?s @ Print ('''' @ '' is not a supported language.'') #
             map (\<lambda>b. Print (b @ '' is not a supported language.'')) [''xx'']\<rparr>)"
    by (rule allE [OF allE [OF allE]])
  with split xx fr
  have "select_loop sample_catalog ?s =
        (None, ?s\<lparr>stdin := [''Hello''], targetLanguage := ''fr'', supportedLanguage := True,
           trace := trace ?s @ Print ('''' @ '' is not a supported language.'') #
             map (\<lambda>b. Print (b @ '' is not a supported language.'')) [''xx'']\<rparr>)"
    by blast
  then have first: "select_loop sample_catalog ?s =
     (None,
      \<lparr>stdin = [''Hello''],
       trace = [Print '' is not a supported language.'',
                Print ''xx is not a supported language.''],
       calls = 0, targetLanguage = ''fr'', supportedLanguage = True, inputText = ''''\<rparr>)"
    by simp
  from C2_invalid_code_rejected [OF de t_flag t_input]
  have "(\<forall>b \<in> set []. b \<notin> Mapping.keys sample_catalog) \<longrightarrow>
      select_loop sample_catalog ?t =
        (Some EOFError,
         ?t\<lparr>stdin := [], targetLanguage := last (''de'' # []),
           trace := trace ?t @ Print (''de'' @ '' is not a supported language.'') #
             map (\<lambda>b. Print (b @ '' is not a supported language.'')) []\<rparr>)"
    by (rule conjunct1 [OF conjunct2 [OF conjunct2]])
  then have second: "select_loop sample_catalog ?t =
     (Some EOFError,
      \<lparr>stdin = [], trace = [Print ''de is not a supported language.''],
       calls = 0, targetLanguage = ''de'', supportedLanguage = False, inputText = ''''\<rparr>)"
    by simp
  from first second show ?thesis
    by (rule conjI)
qed

lemma main_try_selected:
  assumes "new_client e (TRANSLATOR_KEY e) (TRANSLATOR_REGION e) = None"
    and "get_supported_languages e ''translation'' = Inr cat"
    and "\<forall>b \<in> set bad. b \<notin> Mapping.keys cat" and "c \<in> Mapping.keys cat"
  shows "main_try e (initial (bad @ c # rest)) =
     translation_loop e
       \<lparr>stdin = rest,
        trace = [New_client (TRANSLATOR_KEY e) (TRANSLATOR_REGION e) None,
                 Get_supported_languages ''translation'' (Inr cat)] @ banner cat @
                map (\<lambda>b. Print (not_supported_line b)) bad,
        calls = 0, targetLanguage = c, supportedLanguage = True, inputText = ''''\<rparr>"
proof -
  let ?evs0 = "[New_client (TRANSLATOR_KEY e) (TRANSLATOR_REGION e) None,
      Get_supported_languages ''translation'' (Inr cat)] @ banner cat"
  let ?s1 = "(initial (bad @ c # rest))\<lparr>trace := trace (initial (bad @ c # rest)) @ ?evs0,
      targetLanguage := ''xx'', supportedLanguage := False\<rparr>"
  let ?s2 = "?s1\<lparr>stdin := c # rest, targetLanguage := last (targetLanguage ?s1 # bad),
      trace := trace ?s1 @ map (\<lambda>b. Print (not_supported_line b)) bad\<rparr>"
  have flag: "supportedLanguage ?s1 = False"
    by simp
  have input: "stdin ?s1 = bad @ c # rest"
    by (simp add: initial_def)
  have "select_loop cat ?s1 = select_loop cat ?s2"
    using assms(3) flag input by (rule select_loop_rejects)
  moreover have "select_loop cat ?s2 =
      (None, ?s2\<lparr>stdin := rest, targetLanguage := c, supportedLanguage := True\<rparr>)"
  proof (rule select_loop_accept)
    show "stdin ?s2 = c # rest"
      by simp
    show "c \<in> Mapping.keys cat"
      by (rule assms(4))
    show "supportedLanguage ?s2 = False"
      by simp
  qed
  ultimately have "select_loop cat ?s1 =
      (None, ?s2\<lparr>stdin := rest, targetLanguage := c, supportedLanguage := True\<rparr>)"
    by simp
  with assms(1) assms(2) show ?thesis
    by (simp add: main_try_unfold initial_def)
qed

lemma translate_body_call:
  assumes "stdin s = x # rest" and "x \<noteq> ''quit''" and "translate_body e s = (r1, s1)"
  shows "targetLanguage s1 = targetLanguage s \<and>
         (\<exists>shown. trace s1 =
            trace s @ Prompt enter_text_prompt #
              Translate [x] [targetLanguage s] (translate e (calls s) [x] [targetLanguage s]) #
              shown)"
proof (cases "translate e (calls s) [x] [targetLanguage s]")
  case (Inl ex)
  from assms(3) translate_body_raise [OF assms(1) assms(2) Inl] Inl show ?thesis
    by auto
next
  case (Inr resp)
  show ?thesis
  proof (cases resp)
    case Nil
    from assms(3) translate_body_empty [OF assms(1) assms(2) Inr [unfolded Nil]] Inr Nil
    show ?thesis
      by auto
  next
    case (Cons item items)
    from assms(3) translate_body_item [OF assms(1) assms(2) Inr [unfolded Cons]] Inr Cons
    show ?thesis
      by auto
  qed
qed

text \<open>
  C6: the target language is fixed when validation succeeds, and only then. If a session
  gets that far, the variable holds, from then to the end of the session, the first line
  of the input that is a key of the catalog (every line before it was rejected), and every
  translate call of the session has exactly that code as its list of targets. A session
  that does not get that far makes no translate call. When the client is there and the
  input has a key \<open>c\<close> after rejected lines only, the session is the translation loop
  started with \<open>c\<close> as the target language. Every iteration of that loop on a line other
  than \<open>quit\<close> calls the service with the one target it finds in the variable and leaves
  the variable as it is.
\<close>

theorem C6_target_language_fixed:
  assumes "main_try e (initial lines) = (r, s')"
    and "get_supported_languages e ''translation'' = Inr cat"
  shows "(if supportedLanguage s'
          then targetLanguage s' \<in> Mapping.keys cat \<and>
               (\<exists>bad rest. lines = bad @ targetLanguage s' # rest \<and>
                   (\<forall>b \<in> set bad. b \<notin> Mapping.keys cat)) \<and>
               (\<forall>body tl res. Translate body tl res \<in> set (trace s') \<longrightarrow>
                   tl = [targetLanguage s'])
          else (\<forall>body tl res. Translate body tl res \<notin> set (trace s'))) \<and>
         (\<forall>bad c rest.
             new_client e (TRANSLATOR_KEY e) (TRANSLATOR_REGION e) = None \<and>
             lines = bad @ c # rest \<and> (\<forall>b \<in> set bad. b \<notin> Mapping.keys cat) \<and>
             c \<in> Mapping.keys cat \<longrightarrow>
             main_try e (initial lines) =
               translation_loop e
                 \<lparr>stdin = rest,
                  trace = [New_client (TRANSLATOR_KEY e) (TRANSLATOR_REGION e) None,
                           Get_supported_languages ''translation'' (Inr cat)] @ banner cat @
                          map (\<lambda>b. Print (b @ '' is not a supported language.'')) bad,
                  calls = 0, targetLanguage = c, supportedLanguage = True,
                  inputText = ''''\<rparr>) \<and>
         (\<forall>s x rest r1 s1.
             stdin s = x # rest \<and> x \<noteq> ''quit'' \<and> translate_body e s = (r1, s1) \<longrightarrow>
             targetLanguage s1 = targetLanguage s \<and>
             (\<exists>shown. trace s1 =
                trace s @ Prompt enter_text_prompt #
                  Translate [x] [targetLanguage s]
                    (translate e (calls s) [x] [targetLanguage s]) #
                  shown))"
proof (intro conjI)
  show "if supportedLanguage s'
        then targetLanguage s' \<in> Mapping.keys cat \<and>
             (\<exists>bad rest. lines = bad @ targetLanguage s' # rest \<and>
                 (\<forall>b \<in> set bad. b \<notin> Mapping.keys cat)) \<and>
             (\<forall>body tl res. Translate body tl res \<in> set (trace s') \<longrightarrow>
                 tl = [targetLanguage s'])
        else (\<forall>body tl res. Translate body tl res \<notin> set (trace s'))"
  proof (cases "new_client e (TRANSLATOR_KEY e) (TRANSLATOR_REGION e)")
    case (Some ex)
    with assms(1) have
      "s' = (initial lines)\<lparr>trace := trace (initial lines) @
          [New_client (TRANSLATOR_KEY e) (TRANSLATOR_REGION e) (Some ex)]\<rparr>"
      by (auto simp: main_try_unfold)
    then show ?thesis
      by (simp add: initial_def)
  next
    case None
    let ?evs0 = "[New_client (TRANSLATOR_KEY e) (TRANSLATOR_REGION e) None,
        Get_supported_languages ''translation'' (Inr cat)] @ banner cat"
    let ?s1 = "(initial lines)\<lparr>trace := trace (initial lines) @ ?evs0,
        targetLanguage := ''xx'', supportedLanguage := False\<rparr>"
    obtain r2 s2 where sel: "select_loop cat ?s1 = (r2, s2)"
      by (cases "select_loop cat ?s1")
    from select_loop_trace [OF sel] obtain bad' where
      "trace s2 = ?evs0 @ map (\<lambda>b. Print (not_supported_line b)) bad'"
      by (auto simp: initial_def)
    then have no_call: "Translate body tl res \<notin> set (trace s2)" for body tl res
      by (auto simp: banner_def)
    show ?thesis
    proof (cases r2)
      case (Some ex)
      with assms None sel have "s' = s2"
        by (simp add: main_try_unfold)
      moreover from sel Some have "supportedLanguage s2 = False"
        by (auto dest: select_loop_failed)
      ultimately show ?thesis
        using no_call by simp
    next
      case r2: None
      with assms None sel
      have run: "translation_loop e (s2\<lparr>inputText := ''''\<rparr>) = (r, s')"
        by (simp add: main_try_unfold)
      from select_loop_selected [OF sel [unfolded r2]] obtain bad where
        selected: "targetLanguage s2 \<in> Mapping.keys cat" "supportedLanguage s2"
          "lines = bad @ targetLanguage s2 # stdin s2"
          "\<forall>b \<in> set bad. b \<notin> Mapping.keys cat"
        by (auto simp: initial_def)
      from translation_loop_vars [OF run] have
        kept: "targetLanguage s' = targetLanguage s2"
          "supportedLanguage s' = supportedLanguage s2"
        by simp_all
      from translation_loop_inv [OF run, of cat] obtain evs where
        evs: "trace s' = trace s2 @ evs"
          "\<forall>body tl res. Translate body tl res \<in> set evs \<longrightarrow> tl = [targetLanguage s2]"
        by auto
      have "tl = [targetLanguage s']" if "Translate body tl res \<in> set (trace s')"
        for body tl res
      proof -
        from that evs(1) no_call have "Translate body tl res \<in> set evs"
          by auto
        with evs(2) kept(1) show ?thesis
          by auto
      qed
      with selected kept show ?thesis
        by auto
    qed
  qed
next
  show "\<forall>bad c rest.
      new_client e (TRANSLATOR_KEY e) (TRANSLATOR_REGION e) = None \<and>
      lines = bad @ c # rest \<and> (\<forall>b \<in> set bad. b \<notin> Mapping.keys cat) \<and>
      c \<in> Mapping.keys cat \<longrightarrow>
      main_try e (initial lines) =
        translation_loop e
          \<lparr>stdin = rest,
           trace = [New_client (TRANSLATOR_KEY e) (TRANSLATOR_REGION e) None,
                    Get_supported_languages ''translation'' (Inr cat)] @ banner cat @
                   map (\<lambda>b. Print (b @ '' is not a supported language.'')) bad,
           calls = 0, targetLanguage = c, supportedLanguage = True, inputText = ''''\<rparr>"
  proof (intro allI impI)
    fix bad c rest
    assume h: "new_client e (TRANSLATOR_KEY e) (TRANSLATOR_REGION e) = None \<and>
      lines = bad @ c # rest \<and> (\<forall>b \<in> set bad. b \<notin> Mapping.keys cat) \<and>
      c \<in> Mapping.keys cat"
    then have "main_try e (initial (bad @ c # rest)) =
      translation_loop e
        \<lparr>stdin = rest,
         trace = [New_client (TRANSLATOR_KEY e) (TRANSLATOR_REGION e) None,
                  Get_supported_languages ''translation'' (Inr cat)] @ banner cat @
                 map (\<lambda>b. Print (not_supported_line b)) bad,
         calls = 0, targetLanguage = c, supportedLanguage = True, inputText = ''''\<rparr>"
      using assms(2) by (intro main_try_selected) simp_all
    with h show "main_try e (initial lines) =
      translation_loop e
        \<lparr>stdin = rest,
         trace = [New_client (TRANSLATOR_KEY e) (TRANSLATOR_REGION e) None,
                  Get_supported_languages ''translation'' (Inr cat)] @ banner cat @
                 map (\<lambda>b. Print (b @ '' is not a supported language.'')) bad,
         calls = 0, targetLanguage = c, supportedLanguage = True, inputText = ''''\<rparr>"
      by (simp add: not_supported_line_def)
  qed
next
  show "\<forall>s x rest r1 s1.
      stdin s = x # rest \<and> x \<noteq> ''quit'' \<and> translate_body e s = (r1, s1) \<longrightarrow>
      targetLanguage s1 = targetLanguage s \<and>
      (\<exists>shown. trace s1 =
         trace s @ Prompt enter_text_prompt #
           Translate [x] [targetLanguage s] (translate e (calls s) [x] [targetLanguage s]) #
           shown)"
    using translate_body_call by blast
qed

theorem C6_target_language_fixed_witness:
  "\<exists>r s'. main_try (sample_env answering) (initial [''xx'', ''fr'', ''Hello'', ''quit'']) = (r, s') \<and>
     supportedLanguage s' \<and> targetLanguage s' = ''fr'' \<and>
     Translate [''Hello''] [''fr''] (Inr [sample_item ''fr'']) \<in> set (trace s') \<and>
     (\<forall>body tl res. Translate body tl res \<in> set (trace s') \<longrightarrow> tl = [''fr''])"
proof -
  let ?e = "sample_env answering"
  let ?tr = "[New_client (Some ''0123'') (Some ''eastus'') None,
      Get_supported_languages ''translation'' (Inr sample_catalog),
      Print ''2 languages supported.'', Print see_line, Print enter_target_line]"
  let ?s1 = "\<lparr>stdin = [''fr'', ''Hello'', ''quit''],
      trace = ?tr @ [Print (not_supported_line ''xx'')], calls = 0, targetLanguage = ''xx'',
      supportedLanguage = False, inputText = ''''\<rparr>"
  let ?s2 = "\<lparr>stdin = [''Hello'', ''quit''],
      trace = ?tr @ [Print (not_supported_line ''xx'')], calls = 0, targetLanguage = ''fr'',
      supportedLanguage = True, inputText = ''''\<rparr>"
  let ?s3 = "\<lparr>stdin = [''quit''],
      trace = ?tr @ [Print (not_supported_line ''xx''), Prompt enter_text_prompt,
        Translate [''Hello''] [''fr''] (Inr [sample_item ''fr'']),
        Print (translated_line ''Hello'' ''en'' ''fr'' ''Bonjour'')],
      calls = 1, targetLanguage = ''fr'', supportedLanguage = True, inputText = ''Hello''\<rparr>"
  let ?s4 = "\<lparr>stdin = [],
      trace = ?tr @ [Print (not_supported_line ''xx''), Prompt enter_text_prompt,
        Translate [''Hello''] [''fr''] (Inr [sample_item ''fr'']),
        Print (translated_line ''Hello'' ''en'' ''fr'' ''Bonjour''), Prompt enter_text_prompt],
      calls = 1, targetLanguage = ''fr'', supportedLanguage = True, inputText = ''quit''\<rparr>"
  have "select_loop sample_catalog ?s1 = (None, ?s2)"
    by (simp add: select_loop_accept [of _ "''fr''" "[''Hello'', ''quit'']"] sample_catalog_keys)
  then have selected: "select_loop sample_catalog
      \<lparr>stdin = [''xx'', ''fr'', ''Hello'', ''quit''], trace = ?tr, calls = 0,
       targetLanguage = ''xx'', supportedLanguage = False, inputText = ''''\<rparr> = (None, ?s2)"
    by (simp add: select_loop_reject [of _ "''xx''" "[''fr'', ''Hello'', ''quit'']"]
        sample_catalog_keys)
  have "translation_loop ?e ?s3 = (None, ?s4)"
    using translation_loop_quit [of ?s3 "[]" ?e] by (simp add: lower_Hello)
  then have translated: "translation_loop ?e ?s2 = (None, ?s4)"
    using translation_loop_step [of ?s2 "''Hello''" "[''quit'']" ?e]
    by (simp add: lower_empty sample_env_def answering_def sample_item_def)
  have run: "main_try ?e (initial [''xx'', ''fr'', ''Hello'', ''quit'']) = (None, ?s4)"
    using selected translated by (simp add: main_try_def sample_startup)
  have "get_supported_languages ?e ''translation'' = Inr sample_catalog"
    by (simp add: sample_env_def)
  from C6_target_language_fixed [OF run this, THEN conjunct1] run show ?thesis
    by simp
qed

text \<open>
  C9: at startup, once the client is there and the catalog fetched, exactly three lines
  are printed before the first read of the language loop, in this order: the number of
  keys of the catalog followed by \<open> languages supported.\<close>, the line that points to the
  documentation, and the line that asks for a target language code. At that moment
  nothing has been read from the input. They are printed once: none of the three lines
  is among the events that the two loops add afterwards (what \<open>main\<close> adds to the trace
  of its body is at most the message of an exception).
\<close>

theorem C9_banner_once:
  assumes "new_client e (TRANSLATOR_KEY e) (TRANSLATOR_REGION e) = None"
    and "get_supported_languages e ''translation'' = Inr cat"
    and "main_try e (initial lines) = (r, s')"
  shows "startup e (initial lines) =
           (Inr cat,
            (initial lines)\<lparr>trace :=
               [New_client (TRANSLATOR_KEY e) (TRANSLATOR_REGION e) None,
                Get_supported_languages ''translation'' (Inr cat),
                Print (str_nat (Mapping.size cat) @ '' languages supported.''),
                Print see_line,
                Print ''Enter a target language code for translation (for example, 'en'):'']\<rparr>) \<and>
         stdin ((initial lines)\<lparr>trace :=
               [New_client (TRANSLATOR_KEY e) (TRANSLATOR_REGION e) None,
                Get_supported_languages ''translation'' (Inr cat),
                Print (str_nat (Mapping.size cat) @ '' languages supported.''),
                Print see_line,
                Print ''Enter a target language code for translation (for example, 'en'):'']\<rparr>)
           = lines \<and>
         (\<exists>rest.
             trace s' =
               [New_client (TRANSLATOR_KEY e) (TRANSLATOR_REGION e) None,
                Get_supported_languages ''translation'' (Inr cat),
                Print (str_nat (Mapping.size cat) @ '' languages supported.''),
                Print see_line,
                Print ''Enter a target language code for translation (for example, 'en'):''] @ rest \<and>
             (\<forall>ev \<in> set rest.
                 ev \<noteq> Print (str_nat (Mapping.size cat) @ '' languages supported.'') \<and>
                 ev \<noteq> Print see_line \<and>
                 ev \<noteq> Print ''Enter a target language code for translation (for example, 'en'):''))"
proof -
  have lines3: "banner cat =
      [Print (str_nat (Mapping.size cat) @ '' languages supported.''), Print see_line,
       Print ''Enter a target language code for translation (for example, 'en'):'']"
    by (simp add: banner_def languages_supported_line_def enter_target_line_def)
  let ?evs0 = "[New_client (TRANSLATOR_KEY e) (TRANSLATOR_REGION e) None,
      Get_supported_languages ''translation'' (Inr cat)] @ banner cat"
  have started: "startup e (initial lines) =
      (Inr cat, (initial lines)\<lparr>trace := trace (initial lines) @ ?evs0\<rparr>)"
    using assms(1) assms(2) by (rule startup_ok)
  let ?s1 = "(initial lines)\<lparr>trace := trace (initial lines) @ ?evs0,
      targetLanguage := ''xx'', supportedLanguage := False\<rparr>"
  obtain r2 s2 where sel: "select_loop cat ?s1 = (r2, s2)"
    by (cases "select_loop cat ?s1")
  from select_loop_trace [OF sel] obtain bad where
    bad: "trace s2 = ?evs0 @ map (\<lambda>b. Print (not_supported_line b)) bad"
    by (auto simp: initial_def)
  have rejected: "\<forall>ev \<in> set (map (\<lambda>b. Print (not_supported_line b)) bad). ev \<notin> set (banner cat)"
    using not_supported_line_banner by auto
  have "\<exists>rest. trace s' = ?evs0 @ rest \<and> (\<forall>ev \<in> set rest. ev \<notin> set (banner cat))"
  proof (cases r2)
    case (Some ex)
    with assms sel have "s' = s2"
      by (simp add: main_try_unfold)
    with bad rejected show ?thesis
      by blast
  next
    case None
    with assms sel have run: "translation_loop e (s2\<lparr>inputText := ''''\<rparr>) = (r, s')"
      by (simp add: main_try_unfold)
    from translation_loop_inv [OF run, of cat] obtain evs where
      evs: "trace s' = trace s2 @ evs" "\<forall>ev \<in> set evs. ev \<notin> set (banner cat)"
      by auto
    have "trace s' = ?evs0 @ (map (\<lambda>b. Print (not_supported_line b)) bad @ evs)"
      using bad evs(1) by simp
    moreover have "\<forall>ev \<in> set (map (\<lambda>b. Print (not_supported_line b)) bad @ evs).
        ev \<notin> set (banner cat)"
      using rejected evs(2) by (metis Un_iff set_append)
    ultimately show ?thesis
      by blast
  qed
  then obtain rest where rest: "trace s' = ?evs0 @ rest"
    "\<forall>ev \<in> set rest. ev \<notin> set (banner cat)"
    by blast
  from rest(2) have "\<forall>ev \<in> set rest.
      ev \<noteq> Print (str_nat (Mapping.size cat) @ '' languages supported.'') \<and>
      ev \<noteq> Print see_line \<and>
      ev \<noteq> Print ''Enter a target language code for translation (for example, 'en'):''"
    unfolding lines3 by auto
  with started rest(1) show ?thesis
    unfolding lines3 by (simp add: initial_def)
qed

theorem C9_banner_once_witness:
  "startup (sample_env answering) (initial [''fr'', ''quit'']) =
     (Inr sample_catalog,
      \<lparr>stdin = [''fr'', ''quit''],
       trace = [New_client (Some ''0123'') (Some ''eastus'') None,
                Get_supported_languages ''translation'' (Inr sample_catalog),
                Print ''2 languages supported.'', Print see_line,
                Print ''Enter a target language code for translation (for example, 'en'):''],
       calls = 0, targetLanguage = '''', supportedLanguage = False, inputText = ''''\<rparr>)"
proof -
  let ?e = "sample_env answering"
  have client: "new_client ?e (TRANSLATOR_KEY ?e) (TRANSLATOR_REGION ?e) = None"
    and fetched: "get_supported_languages ?e ''translation'' = Inr sample_catalog"
    by (simp_all add: sample_env_def)
  obtain r s' where run: "main_try ?e (initial [''fr'', ''quit'']) = (r, s')"
    by (cases "main_try ?e (initial [''fr'', ''quit''])")
  from C9_banner_once [OF client fetched run] show ?thesis
    by (simp add: initial_def sample_env_def sample_catalog_size str_nat.simps)
qed

end
